theory Spec2Isabelle
  imports Main "HOL-Library.Word" "HOL-Library.Multiset"
begin

section \<open>The rover of \<^verbatim>\<open>rover.h\<close>\<close>

subsection \<open>Data\<close>

text \<open>
  \<^verbatim>\<open>coordinate_t\<close> is \<^verbatim>\<open>int32_t\<close> and \<^verbatim>\<open>direction_t\<close> is a pair of \<^verbatim>\<open>int\<close>
  (32 bits on the platforms the header is built for). Both are 32-bit words here, read
  as two's complement by \<open>sint\<close>; \<open>+\<close>, \<open>-\<close> and unary minus wrap around.
\<close>

type_synonym coordinate_t = "32 word"
type_synonym direction_t = "32 word \<times> 32 word"

datatype error = RoverNotLanded

definition NORTH :: direction_t where "NORTH = (0, 1)"
definition EAST :: direction_t where "EAST = (1, 0)"
definition SOUTH :: direction_t where "SOUTH = (0, - 1)"
definition WEST :: direction_t where "WEST = (- 1, 0)"

text \<open>
  \<^verbatim>\<open>class State\<close>: the four private members, named after their accessors.
\<close>

record State =
  getX :: coordinate_t
  getY :: coordinate_t
  getDirection :: direction_t
  isStopped :: bool

text \<open>The default constructor \<^verbatim>\<open>State() = default\<close> value-initialises every member.\<close>

definition State_default :: State where
  "State_default = \<lparr>getX = 0, getY = 0, getDirection = (0, 0), isStopped = False\<rparr>"

text \<open>
  \<^verbatim>\<open>class Operation\<close> with the five subclasses the header defines. The children of a
  \<^verbatim>\<open>Compose\<close> are fixed by its constructor, so an operation is a finite tree.
\<close>

datatype Operation =
    MoveForward
  | MoveBackward
  | RotateLeft
  | RotateRight
  | Compose "Operation list"

text \<open>
  \<^verbatim>\<open>Sensor::is_safe\<close> is a virtual, non-const member function: an implementation may
  read and write memory of its own. A sensor is therefore a function of the cell and of
  the memory \<open>'w\<close> outside the rover, returning its answer and the memory it leaves.
\<close>

type_synonym 'w Sensor = "coordinate_t \<Rightarrow> coordinate_t \<Rightarrow> 'w \<Rightarrow> bool \<times> 'w"

type_synonym Operations_map = "char \<rightharpoonup> Operation"

record 'w Rover =
  sensors :: "'w Sensor list"
  state :: State
  operations :: Operations_map
  landed :: bool

text \<open>A configuration: the rover and the memory its sensors work on.\<close>

type_synonym 'w conf = "'w Rover \<times> 'w"

subsection \<open>Rover\<close>

definition Rover_new :: "Operations_map \<Rightarrow> 'w Sensor list \<Rightarrow> 'w Rover" where
  "Rover_new operationsMap sensorVec =
     \<lparr>sensors = sensorVec, state = State_default, operations = operationsMap,
      landed = False\<rparr>"

definition setState :: "State \<Rightarrow> 'w Rover \<Rightarrow> 'w Rover" where
  "setState s rover = rover\<lparr>state := s\<rparr>"

definition setStopped :: "bool \<Rightarrow> State \<Rightarrow> State" where
  "setStopped s st = st\<lparr>isStopped := s\<rparr>"

definition land :: "coordinate_t \<times> coordinate_t \<Rightarrow> direction_t \<Rightarrow> 'w Rover \<Rightarrow> 'w Rover" where
  "land coordinates direction rover =
     (let rover1 = rover\<lparr>landed := True\<rparr>;
          x = fst coordinates;
          y = snd coordinates;
          new_state = \<lparr>getX = x, getY = y, getDirection = direction, isStopped = False\<rparr>
      in setState new_state rover1)"

text \<open>
  \<^verbatim>\<open>Rover::danger_exists\<close>: the sensors are asked in order, and the loop returns at the
  first one that answers unsafe.
\<close>

fun danger_loop :: "'w Sensor list \<Rightarrow> coordinate_t \<Rightarrow> coordinate_t \<Rightarrow> 'w \<Rightarrow> bool \<times> 'w" where
  "danger_loop [] new_x new_y w = (False, w)"
| "danger_loop (sensor # rest) new_x new_y w =
     (case sensor new_x new_y w of
        (safe, w') \<Rightarrow> if \<not> safe then (True, w') else danger_loop rest new_x new_y w')"

definition danger_exists :: "'w Rover \<Rightarrow> coordinate_t \<Rightarrow> coordinate_t \<Rightarrow> 'w \<Rightarrow> bool \<times> 'w" where
  "danger_exists rover new_x new_y w = danger_loop (sensors rover) new_x new_y w"

subsection \<open>Operations\<close>

definition execute_move :: "bool \<Rightarrow> 'w conf \<Rightarrow> 'w conf" where
  "execute_move forward c =
     (case c of (rover, w) \<Rightarrow>
        let direction = getDirection (state rover);
            new_x = (if forward then getX (state rover) + fst direction
                     else getX (state rover) - fst direction);
            new_y = (if forward then getY (state rover) + snd direction
                     else getY (state rover) - snd direction)
        in case danger_exists rover new_x new_y w of
             (danger, w') \<Rightarrow>
               let stopped = danger;
                   new_x = (if danger then getX (state rover) else new_x);
                   new_y = (if danger then getY (state rover) else new_y);
                   new_state = \<lparr>getX = new_x, getY = new_y, getDirection = direction,
                                isStopped = stopped\<rparr>
               in (setState new_state rover, w'))"

definition execute_rotate :: "bool \<Rightarrow> 'w conf \<Rightarrow> 'w conf" where
  "execute_rotate clockwise c =
     (case c of (rover, w) \<Rightarrow>
        let new_x = getX (state rover);
            new_y = getY (state rover);
            stopped = False;
            d = getDirection (state rover);
            direction = (if clockwise then (snd d, - fst d) else (- snd d, fst d));
            new_state = \<lparr>getX = new_x, getY = new_y, getDirection = direction,
                         isStopped = stopped\<rparr>
        in (setState new_state rover, w))"

text \<open>
  The virtual \<^verbatim>\<open>Operation::execute\<close>, and the loop of \<^verbatim>\<open>Compose::execute\<close>, which
  looks at the stop flag of the rover's current state before each child.
\<close>

fun execute_op :: "Operation \<Rightarrow> 'w conf \<Rightarrow> 'w conf"
  and compose_loop :: "Operation list \<Rightarrow> 'w conf \<Rightarrow> 'w conf" where
  "execute_op MoveForward c = execute_move True c"
| "execute_op MoveBackward c = execute_move False c"
| "execute_op RotateLeft c = execute_rotate False c"
| "execute_op RotateRight c = execute_rotate True c"
| "execute_op (Compose ops) c = compose_loop ops c"
| "compose_loop [] c = c"
| "compose_loop (operation # rest) c =
     (if isStopped (state (fst c)) then c
      else compose_loop rest (execute_op operation c))"

subsection \<open>Dispatch\<close>

text \<open>
  The loop of \<^verbatim>\<open>Rover::execute\<close> over the characters of the command string: an
  unregistered key sets the stop flag of the current state and leaves the loop.
\<close>

fun dispatch :: "string \<Rightarrow> 'w conf \<Rightarrow> 'w conf" where
  "dispatch [] c = c"
| "dispatch (key # rest) c =
     (case operations (fst c) key of
        None \<Rightarrow> (setState (setStopped True (state (fst c))) (fst c), snd c)
      | Some operation \<Rightarrow> dispatch rest (execute_op operation c))"

text \<open>
  \<^verbatim>\<open>Rover::execute\<close> returns the outcome (the exception, or normal completion) together
  with the configuration it leaves behind.
\<close>

definition execute :: "string \<Rightarrow> 'w conf \<Rightarrow> (error + unit) \<times> 'w conf" where
  "execute commands c =
     (if \<not> landed (fst c) then (Inl RoverNotLanded, c)
      else (Inr (),
            dispatch commands (setState (setStopped False (state (fst c))) (fst c), snd c)))"

subsection \<open>Clients\<close>

text \<open>
  A client drives a rover through its public interface: it builds it, and then calls
  \<^verbatim>\<open>land\<close> and \<^verbatim>\<open>execute\<close> in some order. A client that catches \<^verbatim>\<open>RoverNotLanded\<close>
  goes on with the rover as the failed call left it.
\<close>

datatype call =
    Land "coordinate_t \<times> coordinate_t" direction_t
  | Execute string

fun perform :: "call \<Rightarrow> 'w conf \<Rightarrow> 'w conf" where
  "perform (Land coordinates direction) c = (land coordinates direction (fst c), snd c)"
| "perform (Execute commands) c = snd (execute commands c)"

definition run :: "call list \<Rightarrow> 'w conf \<Rightarrow> 'w conf" where
  "run calls c = fold perform calls c"

fun is_Land :: "call \<Rightarrow> bool" where
  "is_Land (Land coordinates direction) = True"
| "is_Land (Execute commands) = False"

subsection \<open>Sensors used in the examples\<close>

text \<open>A sensor is side-effect-free when no query changes the memory.\<close>

definition side_effect_free :: "'w Sensor \<Rightarrow> bool" where
  "side_effect_free sensor = (\<forall>x y w. snd (sensor x y w) = w)"

text \<open>The memory in which sensor number \<open>i\<close> is queried, should the loop get that far.\<close>

definition memory_before :: "'w Sensor list \<Rightarrow> nat \<Rightarrow> coordinate_t \<Rightarrow> coordinate_t \<Rightarrow> 'w \<Rightarrow> 'w" where
  "memory_before ss i x y w = fold (\<lambda>sensor w. snd (sensor x y w)) (take i ss) w"

definition reject_cell :: "coordinate_t \<times> coordinate_t \<Rightarrow> 'w Sensor" where
  "reject_cell cell x y w = ((x, y) \<noteq> cell, w)"

definition reject_all :: "'w Sensor" where
  "reject_all x y w = (False, w)"

definition accept_all :: "'w Sensor" where
  "accept_all x y w = (True, w)"

text \<open>A sensor that finds every cell safe and counts how often it has been asked.\<close>

definition counting_sensor :: "nat Sensor" where
  "counting_sensor x y n = (True, Suc n)"

definition flbr :: Operations_map where
  "flbr = [CHR ''f'' \<mapsto> MoveForward, CHR ''b'' \<mapsto> MoveBackward,
           CHR ''l'' \<mapsto> RotateLeft, CHR ''r'' \<mapsto> RotateRight]"

text \<open>A landed rover with the bindings \<open>flbr\<close>, given by its state and its sensors.\<close>

definition rover_at ::
  "coordinate_t \<Rightarrow> coordinate_t \<Rightarrow> direction_t \<Rightarrow> bool \<Rightarrow> 'w Sensor list \<Rightarrow> 'w Rover" where
  "rover_at x y d s ss =
     \<lparr>sensors = ss,
      state = \<lparr>getX = x, getY = y, getDirection = d, isStopped = s\<rparr>,
      operations = flbr, landed = True\<rparr>"

text \<open>The bindings of the \<^verbatim>\<open>"FXF"\<close> example: only \<^verbatim>\<open>F\<close> is registered.\<close>

definition only_F :: Operations_map where
  "only_F = [CHR ''F'' \<mapsto> MoveForward]"

section \<open>Frame lemmas\<close>

text \<open>The definitions that evaluating a concrete run unfolds.\<close>

lemmas rover_defs =
  run_def Rover_new_def land_def execute_def flbr_def setStopped_def setState_def
  execute_move_def execute_rotate_def danger_exists_def reject_all_def reject_cell_def
  accept_all_def counting_sensor_def rover_at_def NORTH_def EAST_def SOUTH_def WEST_def Let_def

text \<open>
  No operation touches the sensors, the bindings or the landed flag of the rover.
\<close>

lemma setState_simps [simp]:
  "state (setState s rover) = s"
  "sensors (setState s rover) = sensors rover"
  "operations (setState s rover) = operations rover"
  "landed (setState s rover) = landed rover"
  by (simp_all add: setState_def)

lemma execute_move_frame:
  "sensors (fst (execute_move forward c)) = sensors (fst c)"
  "operations (fst (execute_move forward c)) = operations (fst c)"
  "landed (fst (execute_move forward c)) = landed (fst c)"
  by (simp_all add: execute_move_def Let_def split: prod.splits)

lemma execute_rotate_frame:
  "sensors (fst (execute_rotate clockwise c)) = sensors (fst c)"
  "operations (fst (execute_rotate clockwise c)) = operations (fst c)"
  "landed (fst (execute_rotate clockwise c)) = landed (fst c)"
  by (simp_all add: execute_rotate_def Let_def split: prod.splits)

lemma execute_op_frame_aux:
  "sensors (fst (execute_op operation c)) = sensors (fst c) \<and>
   operations (fst (execute_op operation c)) = operations (fst c) \<and>
   landed (fst (execute_op operation c)) = landed (fst c)"
  "sensors (fst (compose_loop ops c)) = sensors (fst c) \<and>
   operations (fst (compose_loop ops c)) = operations (fst c) \<and>
   landed (fst (compose_loop ops c)) = landed (fst c)"
  by (induction operation c and ops c rule: execute_op_compose_loop.induct)
     (simp_all add: execute_move_frame execute_rotate_frame)

lemma execute_op_frame:
  "sensors (fst (execute_op operation c)) = sensors (fst c)"
  "operations (fst (execute_op operation c)) = operations (fst c)"
  "landed (fst (execute_op operation c)) = landed (fst c)"
  using execute_op_frame_aux(1) [of operation c] by simp_all

lemma dispatch_frame:
  "sensors (fst (dispatch commands c)) = sensors (fst c) \<and>
   operations (fst (dispatch commands c)) = operations (fst c) \<and>
   landed (fst (dispatch commands c)) = landed (fst c)"
  by (induction commands arbitrary: c) (simp_all add: execute_op_frame split: option.splits)

lemma execute_frame:
  "sensors (fst (snd (execute commands c))) = sensors (fst c)"
  "operations (fst (snd (execute commands c))) = operations (fst c)"
  "landed (fst (snd (execute commands c))) = landed (fst c)"
  by (simp_all add: execute_def dispatch_frame)

lemma land_simps:
  "landed (land co d rover) = True"
  "state (land co d rover) = \<lparr>getX = fst co, getY = snd co, getDirection = d, isStopped = False\<rparr>"
  "sensors (land co d rover) = sensors rover"
  "operations (land co d rover) = operations rover"
  by (simp_all add: land_def Let_def)

lemma landed_perform:
  "landed (fst (perform a c)) = (landed (fst c) \<or> is_Land a)"
  by (cases a) (simp_all add: land_simps execute_frame)

lemma landed_run:
  "landed (fst (run calls c)) = (landed (fst c) \<or> (\<exists>a\<in>set calls. is_Land a))"
  unfolding run_def
  by (induction calls arbitrary: c) (auto simp: landed_perform)

section \<open>Moves\<close>

text \<open>
  Claim C1. \<^verbatim>\<open>MoveForward\<close> (resp. \<^verbatim>\<open>MoveBackward\<close>) computes the candidate cell
  \<open>(x + dx, y + dy)\<close> (resp. \<open>(x - dx, y - dy)\<close>) from the current position and
  direction and asks the sensors about it. If they report danger, the new state has the
  old position and direction and the stop flag raised; otherwise the new state is at the
  candidate cell, with the old direction and the stop flag down. Nothing else of the
  rover changes, and the memory is the one the query left. The arithmetic is that of
  32-bit integers.
\<close>

theorem execute_move_candidate:
  fixes rover :: "'w Rover"
  assumes cand: "cand = (if forward
                   then (getX (state rover) + fst (getDirection (state rover)),
                         getY (state rover) + snd (getDirection (state rover)))
                   else (getX (state rover) - fst (getDirection (state rover)),
                         getY (state rover) - snd (getDirection (state rover))))"
    and query: "danger_exists rover (fst cand) (snd cand) w = (danger, w')"
  shows "execute_op (if forward then MoveForward else MoveBackward) (rover, w) =
           (rover\<lparr>state :=
              if danger
              then \<lparr>getX = getX (state rover), getY = getY (state rover),
                    getDirection = getDirection (state rover), isStopped = True\<rparr>
              else \<lparr>getX = fst cand, getY = snd cand,
                    getDirection = getDirection (state rover), isStopped = False\<rparr>\<rparr>, w')"
  using query unfolding cand
  by (cases forward) (simp_all add: execute_move_def setState_def Let_def)

theorem execute_move_candidate_witness:
  "execute_op MoveForward (rover_at 0 1 NORTH False [reject_cell (0, 2)], ()) =
     (rover_at 0 1 NORTH True [reject_cell (0, 2)], ()) \<and>
   execute_op MoveBackward (rover_at 0 1 NORTH False [reject_cell (0, 2)], ()) =
     (rover_at 0 0 NORTH False [reject_cell (0, 2)], ())"
proof -
  let ?r = "rover_at 0 1 NORTH False [reject_cell (0, 2)] :: unit Rover"
  have a: "danger_exists ?r (fst (0, 2)) (snd (0, 2)) () = (True, ())"
    by (simp add: danger_exists_def rover_at_def reject_cell_def)
  have b: "danger_exists ?r (fst (0, 0)) (snd (0, 0)) () = (False, ())"
    by (simp add: danger_exists_def rover_at_def reject_cell_def)
  have "execute_op MoveForward (?r, ()) = (rover_at 0 1 NORTH True [reject_cell (0, 2)], ())"
    using execute_move_candidate [of "(0, 2)" True ?r "()" True "()"] a
    by (simp add: rover_at_def NORTH_def)
  moreover have "execute_op MoveBackward (?r, ()) = (rover_at 0 0 NORTH False [reject_cell (0, 2)], ())"
    using execute_move_candidate [of "(0, 0)" False ?r "()" False "()"] b
    by (simp add: rover_at_def NORTH_def)
  ultimately show ?thesis by simp
qed


section \<open>Compose\<close>

text \<open>
  The loop of \<^verbatim>\<open>Compose::execute\<close> applies a prefix of the children, one after the
  other: every child of the prefix met a state whose stop flag was down, and the prefix
  ends early only at a state whose stop flag is up.
\<close>

lemma compose_loop_prefix:
  "\<exists>n\<le>length ops.
      compose_loop ops c = fold execute_op (take n ops) c \<and>
      (\<forall>i<n. \<not> isStopped (state (fst (fold execute_op (take i ops) c)))) \<and>
      (n < length ops \<longrightarrow> isStopped (state (fst (fold execute_op (take n ops) c))))"
proof (induction ops arbitrary: c)
  case Nil
  show ?case by simp
next
  case (Cons operation rest)
  show ?case
  proof (cases "isStopped (state (fst c))")
    case True
    then have "compose_loop (operation # rest) c = fold execute_op (take 0 (operation # rest)) c \<and>
      (\<forall>i<0::nat. \<not> isStopped (state (fst (fold execute_op (take i (operation # rest)) c)))) \<and>
      (0 < length (operation # rest) \<longrightarrow>
         isStopped (state (fst (fold execute_op (take 0 (operation # rest)) c))))"
      by simp
    then show ?thesis by blast
  next
    case False
    from Cons.IH [of "execute_op operation c"] obtain n where n:
      "n \<le> length rest"
      "compose_loop rest (execute_op operation c) =
         fold execute_op (take n rest) (execute_op operation c)"
      "\<forall>i<n. \<not> isStopped (state (fst (fold execute_op (take i rest) (execute_op operation c))))"
      "n < length rest \<longrightarrow>
         isStopped (state (fst (fold execute_op (take n rest) (execute_op operation c))))"
      by blast
    have 1: "compose_loop (operation # rest) c = fold execute_op (take (Suc n) (operation # rest)) c"
      using False n(2) by simp
    have 2: "\<forall>i<Suc n. \<not> isStopped (state (fst (fold execute_op (take i (operation # rest)) c)))"
    proof (intro allI impI)
      fix i assume "i < Suc n"
      show "\<not> isStopped (state (fst (fold execute_op (take i (operation # rest)) c)))"
      proof (cases i)
        case 0
        then show ?thesis using False by simp
      next
        case (Suc j)
        then have "j < n" using \<open>i < Suc n\<close> by simp
        then show ?thesis using n(3) Suc by simp
      qed
    qed
    have 3: "Suc n < length (operation # rest) \<longrightarrow>
         isStopped (state (fst (fold execute_op (take (Suc n) (operation # rest)) c)))"
      using n(4) by simp
    have "Suc n \<le> length (operation # rest)" using n(1) by simp
    with 1 2 3 show ?thesis by blast
  qed
qed

text \<open>
  Claim C2. Executing \<^verbatim>\<open>Compose [o1, ..., on]\<close> applies the children strictly in
  order: the result is that of applying the first \<open>n\<close> children in sequence, each of
  them at a state whose stop flag is down, and children are left out only when the stop
  flag is up at their turn. When the stop flag is already up as the \<^verbatim>\<open>Compose\<close>
  begins, no child is applied. \<^verbatim>\<open>Compose\<close> changes nothing beyond what these children
  produce.
\<close>

theorem compose_in_order_until_stopped:
  "(\<exists>n\<le>length ops.
      execute_op (Compose ops) c = fold execute_op (take n ops) c \<and>
      (\<forall>i<n. \<not> isStopped (state (fst (fold execute_op (take i ops) c)))) \<and>
      (n < length ops \<longrightarrow> isStopped (state (fst (fold execute_op (take n ops) c))))) \<and>
   (isStopped (state (fst c)) \<longrightarrow> execute_op (Compose ops) c = c)"
proof -
  have "isStopped (state (fst c)) \<longrightarrow> compose_loop ops c = c"
    by (cases ops) simp_all
  then show ?thesis using compose_loop_prefix [of ops c] by simp
qed

theorem compose_in_order_until_stopped_witness:
  "execute_op (Compose [MoveForward, RotateRight, MoveForward])
     (rover_at 0 0 NORTH False [reject_all], ()) =
   (rover_at 0 0 NORTH True [reject_all], ()) \<and>
   execute_op (Compose [MoveForward, RotateRight, MoveForward])
     (rover_at 0 0 NORTH False [reject_all], ()) =
   fold execute_op (take 1 [MoveForward, RotateRight, MoveForward])
     (rover_at 0 0 NORTH False [reject_all], ()) \<and>
   execute_op (Compose [MoveForward, RotateRight, MoveForward])
     (rover_at 0 0 NORTH True [], ()) = (rover_at 0 0 NORTH True [], ())"
proof -
  let ?ops = "[MoveForward, RotateRight, MoveForward]"
  let ?c = "(rover_at 0 0 NORTH False [reject_all], ()) :: unit conf"
  let ?d = "(rover_at 0 0 NORTH True [], ()) :: unit conf"
  have stopped: "isStopped (state (fst ?d))" by (simp add: rover_at_def)
  have d: "execute_op (Compose ?ops) ?d = ?d"
    using compose_in_order_until_stopped [of ?ops ?d] stopped by blast
  have m: "execute_move True ?c = (rover_at 0 0 NORTH True [reject_all], ())"
    by (simp add: execute_move_def danger_exists_def rover_at_def reject_all_def
        setState_def NORTH_def)
  have s: "\<And>x y d b ss. isStopped (state (rover_at x y d b ss :: unit Rover)) = b"
    by (simp add: rover_at_def)
  have c: "execute_op (Compose ?ops) ?c = (rover_at 0 0 NORTH True [reject_all], ())"
    by (simp add: m s)
  show ?thesis using c d m by simp
qed

section \<open>Landing and the \<^verbatim>\<open>RoverNotLanded\<close> exception\<close>

text \<open>
  Claim C3. On a rover built by the constructor and then driven by any sequence of
  \<^verbatim>\<open>land\<close> and \<^verbatim>\<open>execute\<close> calls, \<^verbatim>\<open>execute(commands)\<close> throws \<^verbatim>\<open>RoverNotLanded\<close>
  if and only if \<^verbatim>\<open>land\<close> is not among these calls. When it throws, the rover and the
  memory of the sensors are as they were before the call: no token was processed. Once
  \<^verbatim>\<open>land\<close> has been called, a later \<^verbatim>\<open>execute\<close> completes normally, whatever the
  earlier calls left in the stop flag.
\<close>

theorem execute_not_landed_iff:
  "(fst (execute commands (run calls (Rover_new operationsMap sensorVec, w))) = Inl RoverNotLanded
      \<longleftrightarrow> (\<forall>a\<in>set calls. \<not> is_Land a)) \<and>
   ((\<forall>a\<in>set calls. \<not> is_Land a) \<longrightarrow>
      snd (execute commands (run calls (Rover_new operationsMap sensorVec, w))) =
        run calls (Rover_new operationsMap sensorVec, w)) \<and>
   ((\<exists>a\<in>set calls. is_Land a) \<longrightarrow>
      fst (execute commands (run calls (Rover_new operationsMap sensorVec, w))) = Inr ())"
proof -
  have "landed (fst (run calls (Rover_new operationsMap sensorVec, w))) = (\<exists>a\<in>set calls. is_Land a)"
    by (simp add: landed_run Rover_new_def)
  then show ?thesis by (simp add: execute_def)
qed

theorem execute_not_landed_iff_witness:
  "fst (execute ''f'' (run [Execute ''ff''] (Rover_new flbr [], ()))) = Inl RoverNotLanded \<and>
   snd (execute ''f'' (run [Execute ''ff''] (Rover_new flbr [], ()))) =
     run [Execute ''ff''] (Rover_new flbr [], ()) \<and>
   fst (execute ''f'' (run [Land (0, 0) NORTH, Execute ''f'', Execute ''x''] (Rover_new flbr [reject_all], ())))
     = Inr ()"
proof -
  have a: "\<forall>a\<in>set [Execute ''ff'']. \<not> is_Land a" by simp
  have b: "\<exists>a\<in>set [Land (0, 0) NORTH, Execute ''f'', Execute ''x'']. is_Land a" by simp
  show ?thesis
    using execute_not_landed_iff [of "''f''" "[Execute ''ff'']" flbr "[]" "()"]
      execute_not_landed_iff [of "''f''" "[Land (0, 0) NORTH, Execute ''f'', Execute ''x'']" flbr "[reject_all]" "()"]
      a b
    by blast
qed

section \<open>The dispatch loop\<close>

text \<open>
  While the keys are registered, the loop of \<^verbatim>\<open>Rover::execute\<close> applies the bound
  operations one after the other; the bindings stay what they were.
\<close>

lemma operations_fold_execute_op:
  "operations (fst (fold (\<lambda>key. execute_op (f key)) keys c)) = operations (fst c)"
  by (induction keys arbitrary: c) (simp_all add: execute_op_frame)

lemma dispatch_registered_prefix:
  "\<forall>key\<in>set pre. key \<in> dom (operations (fst c)) \<Longrightarrow>
   dispatch (pre @ rest) c =
     dispatch rest (fold (\<lambda>key. execute_op (the (operations (fst c) key))) pre c)"
proof (induction pre arbitrary: c)
  case Nil
  show ?case by simp
next
  case (Cons key pre)
  from Cons.prems obtain operation where op: "operations (fst c) key = Some operation"
    by auto
  have same: "operations (fst (execute_op operation c)) = operations (fst c)"
    by (simp add: execute_op_frame)
  have "\<forall>k\<in>set pre. k \<in> dom (operations (fst (execute_op operation c)))"
    using Cons.prems same by simp
  from Cons.IH [OF this] show ?case
    using op same by simp
qed

text \<open>
  Claim C4. In \<^verbatim>\<open>execute\<close> on a landed rover, when the loop meets a token with no
  registered operation (all tokens before it being registered), the stop flag of the
  current state is set and the tokens after it are not processed: the call leaves what
  executing the tokens before it leaves, with the stop flag raised. In particular
  \<^verbatim>\<open>"FXF"\<close>, with \<^verbatim>\<open>F\<close> bound to \<^verbatim>\<open>MoveForward\<close>, \<^verbatim>\<open>X\<close> unbound and no sensors, moves
  the rover by one step of its direction, not two.
\<close>

theorem unknown_token_halts:
  "(landed (fst c) \<and> (\<forall>k\<in>set pre. k \<in> dom (operations (fst c))) \<and>
    operations (fst c) key = None \<longrightarrow>
      execute (pre @ key # post) c =
        (Inr (), (fst (snd (execute pre c)))
                   \<lparr>state := (state (fst (snd (execute pre c))))\<lparr>isStopped := True\<rparr>\<rparr>,
                 snd (snd (execute pre c)))) \<and>
   (landed rover \<and> operations rover CHR ''F'' = Some MoveForward \<and>
    operations rover CHR ''X'' = None \<and> sensors rover = [] \<longrightarrow>
      execute ''FXF'' (rover, w) =
        (Inr (), rover\<lparr>state :=
                   \<lparr>getX = getX (state rover) + fst (getDirection (state rover)),
                    getY = getY (state rover) + snd (getDirection (state rover)),
                    getDirection = getDirection (state rover), isStopped = True\<rparr>\<rparr>, w))"
proof -
  have 1: "execute (pre @ key # post) c =
        (Inr (), (fst (snd (execute pre c)))
                   \<lparr>state := (state (fst (snd (execute pre c))))\<lparr>isStopped := True\<rparr>\<rparr>,
                 snd (snd (execute pre c)))"
    if l: "landed (fst c)" and r: "\<forall>k\<in>set pre. k \<in> dom (operations (fst c))"
      and u: "operations (fst c) key = None"
  proof -
    let ?c0 = "(setState (setStopped False (state (fst c))) (fst c), snd c)"
    let ?f = "fold (\<lambda>key. execute_op (the (operations (fst ?c0) key))) pre ?c0"
    have r0: "\<forall>k\<in>set pre. k \<in> dom (operations (fst ?c0))" using r by simp
    have a: "dispatch (pre @ key # post) ?c0 = dispatch (key # post) ?f"
      by (rule dispatch_registered_prefix [OF r0])
    have b: "dispatch pre ?c0 = ?f"
      using dispatch_registered_prefix [OF r0, of "[]"] by simp
    have "operations (fst ?f) key = None"
      using u by (simp add: operations_fold_execute_op)
    then have "dispatch (key # post) ?f = (setState (setStopped True (state (fst ?f))) (fst ?f), snd ?f)"
      by simp
    with a b l show ?thesis
      by (simp add: execute_def setState_def setStopped_def)
  qed
  have 2: "execute ''FXF'' (rover, w) =
        (Inr (), rover\<lparr>state :=
                   \<lparr>getX = getX (state rover) + fst (getDirection (state rover)),
                    getY = getY (state rover) + snd (getDirection (state rover)),
                    getDirection = getDirection (state rover), isStopped = True\<rparr>\<rparr>, w)"
    if "landed rover" "operations rover CHR ''F'' = Some MoveForward"
      "operations rover CHR ''X'' = None" "sensors rover = []"
    using that
    by (simp add: execute_def execute_move_def danger_exists_def setState_def setStopped_def Let_def)
  from 1 2 show ?thesis by blast
qed

theorem unknown_token_halts_witness:
  "execute ''FXF'' (land (0, 0) NORTH (Rover_new only_F []), ()) =
     (Inr (), \<lparr>sensors = [],
               state = \<lparr>getX = 0, getY = 1, getDirection = NORTH, isStopped = True\<rparr>,
               operations = only_F, landed = True\<rparr>, ()) \<and>
   execute ''F'' (land (0, 0) NORTH (Rover_new only_F []), ()) =
     (Inr (), \<lparr>sensors = [],
               state = \<lparr>getX = 0, getY = 1, getDirection = NORTH, isStopped = False\<rparr>,
               operations = only_F, landed = True\<rparr>, ())"
proof -
  let ?r = "land (0, 0) NORTH (Rover_new only_F []) :: unit Rover"
  have h: "landed ?r" "operations ?r CHR ''F'' = Some MoveForward"
    "operations ?r CHR ''X'' = None" "sensors ?r = []"
    "\<forall>k\<in>set ''F''. k \<in> dom (operations ?r)"
    by (simp_all add: rover_defs only_F_def)
  have pre: "execute ''F'' (?r, ()) =
     (Inr (), \<lparr>sensors = [],
               state = \<lparr>getX = 0, getY = 1, getDirection = NORTH, isStopped = False\<rparr>,
               operations = only_F, landed = True\<rparr>, ())"
    by (simp add: rover_defs only_F_def)
  have "execute (''F'' @ CHR ''X'' # ''F'') (?r, ()) =
     (Inr (), \<lparr>sensors = [],
               state = \<lparr>getX = 0, getY = 1, getDirection = NORTH, isStopped = True\<rparr>,
               operations = only_F, landed = True\<rparr>, ())"
    using unknown_token_halts [of "(?r, ())" "''F''" "CHR ''X''" "''F''" ?r "()"] h
    by (simp add: pre)
  with pre show ?thesis by simp
qed

text \<open>
  Claim C5. The loop of \<^verbatim>\<open>Rover::execute\<close> does not look at the stop flag between
  tokens: a run of registered tokens has every bound operation applied, in order,
  whatever stop flag the operations before left; so has a whole command string of
  registered tokens on a landed rover; and at a state whose stop flag is up the
  operation of the next registered token is applied all the same.
\<close>

theorem dispatch_ignores_stopped:
  "((\<forall>key\<in>set pre. key \<in> dom (operations (fst c))) \<longrightarrow>
      dispatch (pre @ rest) c =
        dispatch rest (fold (\<lambda>key. execute_op (the (operations (fst c) key))) pre c)) \<and>
   (landed (fst c) \<and> (\<forall>key\<in>set commands. key \<in> dom (operations (fst c))) \<longrightarrow>
      execute commands c =
        (Inr (), fold (\<lambda>key. execute_op (the (operations (fst c) key))) commands
                   ((fst c)\<lparr>state := (state (fst c))\<lparr>isStopped := False\<rparr>\<rparr>, snd c))) \<and>
   (isStopped (state (fst c)) \<and> operations (fst c) key = Some operation \<longrightarrow>
      dispatch (key # rest) c = dispatch rest (execute_op operation c))"
proof -
  have "dispatch commands c' =
          fold (\<lambda>key. execute_op (the (operations (fst c') key))) commands c'"
    if "\<forall>key\<in>set commands. key \<in> dom (operations (fst c'))" for c' :: "'a conf"
    using dispatch_registered_prefix [OF that, of "[]"] by simp
  from this [of "((fst c)\<lparr>state := (state (fst c))\<lparr>isStopped := False\<rparr>\<rparr>, snd c)"]
  have "landed (fst c) \<and> (\<forall>key\<in>set commands. key \<in> dom (operations (fst c))) \<longrightarrow>
      execute commands c =
        (Inr (), fold (\<lambda>key. execute_op (the (operations (fst c) key))) commands
                   ((fst c)\<lparr>state := (state (fst c))\<lparr>isStopped := False\<rparr>\<rparr>, snd c))"
    by (simp add: execute_def setState_def setStopped_def)
  then show ?thesis
    using dispatch_registered_prefix [of pre c rest] by simp
qed

theorem dispatch_ignores_stopped_witness:
  "execute ''f'' (rover_at 0 0 NORTH False [reject_cell (0, 1)], ()) =
     (Inr (), rover_at 0 0 NORTH True [reject_cell (0, 1)], ()) \<and>
   execute ''fb'' (rover_at 0 0 NORTH False [reject_cell (0, 1)], ()) =
     (Inr (), rover_at 0 (- 1) NORTH False [reject_cell (0, 1)], ()) \<and>
   execute ''fr'' (rover_at 0 0 NORTH False [reject_cell (0, 1)], ()) =
     (Inr (), rover_at 0 0 EAST False [reject_cell (0, 1)], ())"
proof -
  let ?c = "(rover_at 0 0 NORTH False [reject_cell (0, 1)], ()) :: unit conf"
  have reg: "landed (fst ?c) \<and> (\<forall>key\<in>set cs. key \<in> dom (operations (fst ?c)))"
    if "cs = ''f'' \<or> cs = ''fb'' \<or> cs = ''fr''" for cs
    using that by (auto simp: rover_at_def flbr_def)
  have "execute ''f'' ?c = (Inr (), rover_at 0 0 NORTH True [reject_cell (0, 1)], ())"
    using dispatch_ignores_stopped [of "[]" ?c "[]" "''f''"] reg [of "''f''"]
    by (simp add: rover_defs)
  moreover have "execute ''fb'' ?c = (Inr (), rover_at 0 (- 1) NORTH False [reject_cell (0, 1)], ())"
    using dispatch_ignores_stopped [of "[]" ?c "[]" "''fb''"] reg [of "''fb''"]
    by (simp add: rover_defs)
  moreover have "execute ''fr'' ?c = (Inr (), rover_at 0 0 EAST False [reject_cell (0, 1)], ())"
    using dispatch_ignores_stopped [of "[]" ?c "[]" "''fr''"] reg [of "''fr''"]
    by (simp add: rover_defs)
  ultimately show ?thesis by simp
qed

section \<open>Rotations\<close>

text \<open>
  Claim C6, amended. \<^verbatim>\<open>RotateLeft\<close> and \<^verbatim>\<open>RotateRight\<close> never query a sensor (the
  memory of the sensors is untouched, whatever the sensors are) and never raise the stop
  flag; the position is carried over, the direction is rotated, and the stop flag of the
  new state is down whatever it was before. Sensors, bindings and the landed flag stay.
\<close>

theorem rotate_keeps_position_clears_stopped:
  "execute_op RotateRight (rover, w) =
     (rover\<lparr>state := \<lparr>getX = getX (state rover), getY = getY (state rover),
                       getDirection = (snd (getDirection (state rover)),
                                       - fst (getDirection (state rover))),
                       isStopped = False\<rparr>\<rparr>, w) \<and>
   execute_op RotateLeft (rover, w) =
     (rover\<lparr>state := \<lparr>getX = getX (state rover), getY = getY (state rover),
                       getDirection = (- snd (getDirection (state rover)),
                                       fst (getDirection (state rover))),
                       isStopped = False\<rparr>\<rparr>, w)"
  by (simp add: execute_rotate_def setState_def Let_def)

text \<open>
  Claim C6 as stated, with only the direction changing, fails at a stopped state:
  with a sensor that rejects every cell, \<^verbatim>\<open>"f"\<close> leaves the rover stopped, and \<^verbatim>\<open>"fr"\<close>
  leaves it rotated with the stop flag down.
\<close>

theorem rotate_changes_stopped_counterexample:
  "state (fst (execute_op RotateRight (rover_at 0 0 NORTH True [reject_all], ()))) \<noteq>
     (state (rover_at 0 0 NORTH True [reject_all]))\<lparr>getDirection := EAST\<rparr> \<and>
   isStopped (state (fst (execute_op RotateRight (rover_at 0 0 NORTH True [reject_all], ())))) \<noteq>
     isStopped (state (rover_at 0 0 NORTH True [reject_all])) \<and>
   snd (execute ''f'' (run [Land (0, 0) NORTH] (Rover_new flbr [reject_all], ()))) =
     (rover_at 0 0 NORTH True [reject_all], ()) \<and>
   snd (execute ''fr'' (run [Land (0, 0) NORTH] (Rover_new flbr [reject_all], ()))) =
     (rover_at 0 0 EAST False [reject_all], ())"
  by (simp add: rover_defs)

text \<open>
  A sensor that counts its queries shows the difference between a move and a rotation.
\<close>

lemma counting_sensor_example:
  "execute_op MoveForward (rover_at 0 0 NORTH False [counting_sensor], 0) =
     (rover_at 0 1 NORTH False [counting_sensor], 1) \<and>
   execute_op RotateRight (rover_at 0 0 NORTH False [counting_sensor], 0) =
     (rover_at 0 0 EAST False [counting_sensor], 0)"
  by (simp add: rover_defs)

text \<open>
  Claim C7. \<^verbatim>\<open>RotateRight\<close> maps the direction \<open>(dx, dy)\<close> to \<open>(dy, - dx)\<close> and
  \<^verbatim>\<open>RotateLeft\<close> maps it to \<open>(- dy, dx)\<close>; four applications of the same rotation give
  back the direction they started from, for every direction.
\<close>

theorem rotate_direction_order_four:
  "getDirection (state (fst (execute_op RotateRight c))) =
     (snd (getDirection (state (fst c))), - fst (getDirection (state (fst c)))) \<and>
   getDirection (state (fst (execute_op RotateLeft c))) =
     (- snd (getDirection (state (fst c))), fst (getDirection (state (fst c)))) \<and>
   getDirection (state (fst (execute_op RotateRight (execute_op RotateRight
      (execute_op RotateRight (execute_op RotateRight c)))))) = getDirection (state (fst c)) \<and>
   getDirection (state (fst (execute_op RotateLeft (execute_op RotateLeft
      (execute_op RotateLeft (execute_op RotateLeft c)))))) = getDirection (state (fst c))"
  by (simp add: execute_rotate_def Let_def split: prod.splits)

section \<open>The sensors\<close>

text \<open>
  The answer of \<^verbatim>\<open>danger_exists\<close> in general: some sensor answers unsafe when asked
  after the sensors before it.
\<close>

lemma danger_loop_answers:
  "fst (danger_loop ss x y w) =
     (\<exists>i<length ss. \<not> fst ((ss ! i) x y (memory_before ss i x y w)))"
proof (induction ss arbitrary: w)
  case Nil
  show ?case by simp
next
  case (Cons sensor rest)
  obtain safe w' where q: "sensor x y w = (safe, w')" by (cases "sensor x y w")
  have shift: "memory_before (sensor # rest) (Suc j) x y w = memory_before rest j x y w'" for j
    by (simp add: memory_before_def q)
  show ?case
  proof (cases safe)
    case False
    then have "\<not> fst (((sensor # rest) ! 0) x y (memory_before (sensor # rest) 0 x y w))"
      by (simp add: memory_before_def q)
    then have "\<exists>i<length (sensor # rest).
        \<not> fst (((sensor # rest) ! i) x y (memory_before (sensor # rest) i x y w))"
      by blast
    then show ?thesis using False q by simp
  next
    case True
    have "(\<exists>i<length (sensor # rest).
             \<not> fst (((sensor # rest) ! i) x y (memory_before (sensor # rest) i x y w))) =
          (\<exists>j<length rest. \<not> fst ((rest ! j) x y (memory_before rest j x y w')))"
      (is "?L = ?R")
    proof
      assume ?L
      then obtain i where i: "i < length (sensor # rest)"
        "\<not> fst (((sensor # rest) ! i) x y (memory_before (sensor # rest) i x y w))"
        by blast
      show ?R
      proof (cases i)
        case 0
        with i(2) True q show ?thesis by (simp add: memory_before_def)
      next
        case (Suc j)
        with i shift [of j] have "j < length rest"
          "\<not> fst ((rest ! j) x y (memory_before rest j x y w'))"
          by simp_all
        then show ?thesis by blast
      qed
    next
      assume ?R
      then obtain j where j: "j < length rest"
        "\<not> fst ((rest ! j) x y (memory_before rest j x y w'))"
        by blast
      then have "Suc j < length (sensor # rest)"
        "\<not> fst (((sensor # rest) ! Suc j) x y (memory_before (sensor # rest) (Suc j) x y w))"
        using shift [of j] by simp_all
      then show ?L by blast
    qed
    then show ?thesis using True q Cons.IH [of w'] by simp
  qed
qed

lemma danger_loop_side_effect_free:
  "\<forall>sensor\<in>set ss. side_effect_free sensor \<Longrightarrow>
   danger_loop ss x y w = ((\<exists>sensor\<in>set ss. \<not> fst (sensor x y w)), w)"
proof (induction ss)
  case Nil
  show ?case by simp
next
  case (Cons sensor rest)
  then have "snd (sensor x y w) = w" by (simp add: side_effect_free_def)
  then obtain safe where "sensor x y w = (safe, w)" by (cases "sensor x y w") simp
  then show ?case using Cons by simp
qed

text \<open>
  Claim C8. \<^verbatim>\<open>danger_exists(x, y)\<close> returns true if and only if at least one registered
  sensor's \<^verbatim>\<open>is_safe(x, y)\<close> returns false, asked in turn; it returns false when no
  sensor is registered. For side-effect-free sensors this is the disjunction over the
  set of sensors, the memory is unchanged, and the result is the same for every
  reordering of the list.
\<close>

theorem danger_exists_any_unsafe:
  "fst (danger_exists rover x y w) =
     (\<exists>i<length (sensors rover).
        \<not> fst ((sensors rover ! i) x y (memory_before (sensors rover) i x y w))) \<and>
   (sensors rover = [] \<longrightarrow> danger_exists rover x y w = (False, w)) \<and>
   ((\<forall>sensor\<in>set (sensors rover). side_effect_free sensor) \<longrightarrow>
      danger_exists rover x y w = ((\<exists>sensor\<in>set (sensors rover). \<not> fst (sensor x y w)), w) \<and>
      (\<forall>rover'. mset (sensors rover') = mset (sensors rover) \<longrightarrow>
         danger_exists rover' x y w = danger_exists rover x y w))"
proof -
  have "danger_exists rover' x y w = danger_exists rover x y w"
    if free: "\<forall>sensor\<in>set (sensors rover). side_effect_free sensor"
      and perm: "mset (sensors rover') = mset (sensors rover)" for rover' :: "'a Rover"
  proof -
    have eq: "set (sensors rover') = set (sensors rover)"
      using perm by (rule mset_eq_setD)
    then have "\<forall>sensor\<in>set (sensors rover'). side_effect_free sensor"
      using free by simp
    then show ?thesis
      using free eq by (simp add: danger_exists_def danger_loop_side_effect_free)
  qed
  then show ?thesis
    by (simp add: danger_exists_def danger_loop_answers danger_loop_side_effect_free)
qed

theorem danger_exists_any_unsafe_witness:
  "danger_exists (rover_at 0 0 NORTH False [accept_all, reject_cell (0, 1)]) 0 1 () = (True, ()) \<and>
   danger_exists (rover_at 0 0 NORTH False [reject_cell (0, 1), accept_all]) 0 1 () = (True, ()) \<and>
   danger_exists (rover_at 0 0 NORTH False [accept_all, reject_cell (0, 1)]) 0 2 () = (False, ()) \<and>
   danger_exists (rover_at 0 0 NORTH False []) 0 1 () = (False, ())"
proof -
  let ?r = "rover_at 0 0 NORTH False [accept_all, reject_cell (0, 1)] :: unit Rover"
  let ?r' = "rover_at 0 0 NORTH False [reject_cell (0, 1), accept_all] :: unit Rover"
  let ?e = "rover_at 0 0 NORTH False [] :: unit Rover"
  have free: "\<forall>sensor\<in>set (sensors ?r). side_effect_free sensor"
    by (simp add: rover_at_def side_effect_free_def accept_all_def reject_cell_def)
  have perm: "mset (sensors ?r') = mset (sensors ?r)"
    by (simp add: rover_at_def)
  have none: "sensors ?e = []" by (simp add: rover_at_def)
  have a: "danger_exists ?r 0 1 () = (True, ())"
    using danger_exists_any_unsafe [of ?r 0 1 "()"] free
    by (simp add: rover_at_def accept_all_def reject_cell_def)
  have b: "danger_exists ?r' 0 1 () = danger_exists ?r 0 1 ()"
    using danger_exists_any_unsafe [of ?r 0 1 "()"] free perm by blast
  have c: "danger_exists ?r 0 2 () = (False, ())"
    using danger_exists_any_unsafe [of ?r 0 2 "()"] free
    by (simp add: rover_at_def accept_all_def reject_cell_def)
  have d: "danger_exists ?e 0 1 () = (False, ())"
    using danger_exists_any_unsafe [of ?e 0 1 "()"] none by blast
  from a b c d show ?thesis by simp
qed

section \<open>Landing again, and the empty \<^verbatim>\<open>Compose\<close>\<close>

text \<open>
  Claim C9. \<^verbatim>\<open>land(coordinates, direction)\<close> sets the landed flag and replaces the
  state by a fresh one at the given coordinates, with the given direction and the stop
  flag down, whatever the rover was before; so does a landing that follows any sequence
  of earlier calls.
\<close>

theorem land_installs_fresh_state:
  "land coordinates direction rover =
     rover\<lparr>landed := True,
            state := \<lparr>getX = fst coordinates, getY = snd coordinates,
                      getDirection = direction, isStopped = False\<rparr>\<rparr> \<and>
   landed (fst (run (calls @ [Land coordinates direction]) c)) \<and>
   state (fst (run (calls @ [Land coordinates direction]) c)) =
     \<lparr>getX = fst coordinates, getY = snd coordinates,
      getDirection = direction, isStopped = False\<rparr>"
  by (simp add: land_def setState_def Let_def run_def)

text \<open>
  Claim C10. A \<^verbatim>\<open>Compose\<close> without children is the identity: executing it leaves the
  rover (position, direction, stop flag) and the memory as they are, stopped or not.
\<close>

theorem compose_empty_identity: "execute_op (Compose []) c = c"
  by simp

end
